theory Spec2Isabelle
  imports Main "HOL-Library.Sublist"
begin

section \<open>The file storage gateway of \<open>backend/server.js\<close>\<close>

text \<open>
  The server has four routes, \<open>/upload\<close>, \<open>/create\<close>, \<open>/edit\<close> and \<open>/delete\<close>.
  Each one joins the client's file name to \<open>BASE_DIR\<close> with Node's \<open>path.join\<close> and
  hands the result to \<open>fs.writeFile\<close>, \<open>fs.unlink\<close> or multer's disk storage.
  The handlers are modelled as functions from the file system before the request to the
  HTTP response and the file system after it. File names and contents are strings, as
  the JSON bodies of the routes carry them; a request is handled to its end before the
  next one starts.

  The library operations the handlers call are not part of the repository. They are
  modelled here after their documented behaviour on a POSIX system: \<open>path.join\<close>
  (Node's \<open>path.posix\<close>), the system calls behind \<open>fs.writeFile\<close> and \<open>fs.unlink\<close>
  on a Linux file system of plain files and directories (no symbolic links, no
  permissions, no quota: the system errors are \<open>ENOENT\<close>, \<open>ENOTDIR\<close>, \<open>EISDIR\<close> and
  \<open>ENAMETOOLONG\<close>), and the upload middleware of multer.
\<close>

subsection \<open>Node's \<open>path.join\<close>\<close>

text \<open>\<open>String.prototype.split\<close> on one separator character: never an empty list.\<close>

primrec split_on :: "char \<Rightarrow> string \<Rightarrow> string list" where
  "split_on c [] = [[]]"
| "split_on c (x # xs) =
     (if x = c then [] # split_on c xs
      else case split_on c xs of
             [] \<Rightarrow> [[x]]
           | seg # segs \<Rightarrow> (x # seg) # segs)"

fun join_with :: "string \<Rightarrow> string list \<Rightarrow> string" where
  "join_with sep [] = []"
| "join_with sep [s] = s"
| "join_with sep (s # t # ss) = s @ sep @ join_with sep (t # ss)"

text \<open>
  \<open>normalizeString\<close> of \<open>path.posix\<close>, segment by segment. \<open>res\<close> holds the segments kept
  so far, the last one first. An empty segment and \<open>.\<close> are dropped; \<open>..\<close> removes the
  last kept segment unless there is none or it is \<open>..\<close> itself, in which case \<open>..\<close> is
  kept when the path is relative (\<open>allowAboveRoot\<close>) and dropped when it is absolute.
\<close>

fun normalizeString :: "bool \<Rightarrow> string list \<Rightarrow> string list \<Rightarrow> string list" where
  "normalizeString allowAboveRoot res [] = rev res"
| "normalizeString allowAboveRoot res (seg # segs) =
     (if seg = [] \<or> seg = ''.'' then normalizeString allowAboveRoot res segs
      else if seg = ''..'' then
        (if res \<noteq> [] \<and> hd res \<noteq> ''..'' then normalizeString allowAboveRoot (tl res) segs
         else if allowAboveRoot then normalizeString allowAboveRoot (''..'' # res) segs
         else normalizeString allowAboveRoot res segs)
      else normalizeString allowAboveRoot (seg # res) segs)"

definition isAbsolute :: "string \<Rightarrow> bool" where
  "isAbsolute path = (case path of [] \<Rightarrow> False | c # _ \<Rightarrow> c = CHR ''/'')"

definition trailingSeparator :: "string \<Rightarrow> bool" where
  "trailingSeparator path = (path \<noteq> [] \<and> last path = CHR ''/'')"

definition posix_normalize :: "string \<Rightarrow> string" where
  "posix_normalize path =
     (if path = [] then ''.''
      else
        let segs = normalizeString (\<not> isAbsolute path) [] (split_on CHR ''/'' path)
        in if segs = [] then
             (if isAbsolute path then ''/''
              else if trailingSeparator path then ''./'' else ''.'')
           else (if isAbsolute path then ''/'' else [])
                @ join_with ''/'' segs
                @ (if trailingSeparator path then ''/'' else []))"

text \<open>\<open>path.join\<close> with two arguments: empty arguments are skipped.\<close>

definition path_join :: "string \<Rightarrow> string \<Rightarrow> string" where
  "path_join a b =
     (if a = [] then (if b = [] then ''.'' else posix_normalize b)
      else if b = [] then posix_normalize a
      else posix_normalize (a @ ''/'' @ b))"

subsection \<open>The file system\<close>

datatype node = File string | Dir

text \<open>
  The errors: the codes of the system errors that a callback receives, and Node's
  \<open>ERR_INVALID_ARG_VALUE\<close>, which \<open>fs\<close> functions throw at once, before any system call,
  when the path holds a NUL byte.
\<close>

datatype errno = ENOENT | ENOTDIR | EISDIR | ENAMETOOLONG

datatype fs_error = ERR_INVALID_ARG_VALUE | SystemError errno

text \<open>
  The file system maps the list of components of an absolute path to what is stored
  there. The root directory, \<open>[]\<close>, always exists and has no entry of its own.
\<close>

type_synonym filesystem = "string list \<rightharpoonup> node"

text \<open>
  The components of a path: slashes separate them, and repeated slashes count as one.
  Every path a handler passes to the file system is a result of \<open>path.join\<close>, hence
  normalized, and absolute as \<open>__dirname\<close> is.
\<close>

definition components :: "string \<Rightarrow> string list" where
  "components path = filter (\<lambda>seg. seg \<noteq> []) (split_on CHR ''/'' path)"

text \<open>The limits of Linux on the length of a path and of one component, in bytes.\<close>

definition PATH_MAX :: nat where
  "PATH_MAX = 4096"

definition NAME_MAX :: nat where
  "NAME_MAX = 255"

text \<open>
  Walking down from the directory \<open>pre\<close> through the directories \<open>segs\<close>: each one
  must have a name of legal length, exist and be a directory.
\<close>

fun walk :: "filesystem \<Rightarrow> string list \<Rightarrow> string list \<Rightarrow> errno option" where
  "walk fs pre [] = None"
| "walk fs pre (seg # segs) =
     (if NAME_MAX < length seg then Some ENAMETOOLONG
      else (case fs (pre @ [seg]) of
              None \<Rightarrow> Some ENOENT
            | Some (File _) \<Rightarrow> Some ENOTDIR
            | Some Dir \<Rightarrow> walk fs (pre @ [seg]) segs))"

text \<open>
  What the three operations share: Node's check of the path, the limit on its length
  (the terminating NUL counts), and the walk to the directory of the last component.
  The result is the list of components.
\<close>

definition lookup_parent :: "filesystem \<Rightarrow> string \<Rightarrow> fs_error + string list" where
  "lookup_parent fs path =
     (if CHR 0x00 \<in> set path then Inl ERR_INVALID_ARG_VALUE
      else if path = [] then Inl (SystemError ENOENT)
      else if PATH_MAX \<le> length path then Inl (SystemError ENAMETOOLONG)
      else
        let segs = components path in
        if segs = [] then Inl (SystemError EISDIR)
        else (case walk fs [] (butlast segs) of
                Some err \<Rightarrow> Inl (SystemError err)
              | None \<Rightarrow> Inr segs))"

text \<open>
  \<open>fs.writeFile(path, data)\<close>: \<open>open(path, O_WRONLY | O_CREAT | O_TRUNC)\<close>, then the
  data is written. With \<open>O_CREAT\<close>, a path that ends in a slash is refused with
  \<open>EISDIR\<close> whatever is there. A failed \<open>open\<close> changes nothing. Failures after the
  file is open (a full disk, an I/O error) are not modelled: once open, the write
  completes.
\<close>

definition writeFile :: "filesystem \<Rightarrow> string \<Rightarrow> string \<Rightarrow> fs_error + filesystem" where
  "writeFile fs path data =
     (case lookup_parent fs path of
        Inl err \<Rightarrow> Inl err
      | Inr segs \<Rightarrow>
          if trailingSeparator path then Inl (SystemError EISDIR)
          else if NAME_MAX < length (last segs) then Inl (SystemError ENAMETOOLONG)
          else (case fs segs of
                  Some Dir \<Rightarrow> Inl (SystemError EISDIR)
                | _ \<Rightarrow> Inr (fs(segs \<mapsto> File data))))"

text \<open>\<open>fs.unlink(path)\<close>: removes a plain file.\<close>

definition unlink :: "filesystem \<Rightarrow> string \<Rightarrow> fs_error + filesystem" where
  "unlink fs path =
     (case lookup_parent fs path of
        Inl err \<Rightarrow> Inl err
      | Inr segs \<Rightarrow>
          if NAME_MAX < length (last segs) then Inl (SystemError ENAMETOOLONG)
          else (case fs segs of
                  None \<Rightarrow> Inl (SystemError ENOENT)
                | Some Dir \<Rightarrow> Inl (SystemError EISDIR)
                | Some (File _) \<Rightarrow>
                    if trailingSeparator path then Inl (SystemError ENOTDIR)
                    else Inr (fs(segs := None))))"

text \<open>
  Reading a file back (\<open>fs.readFile\<close>). No route reads; the function states what
  ``the file holds this content'' means.
\<close>

definition readFile :: "filesystem \<Rightarrow> string \<Rightarrow> fs_error + string" where
  "readFile fs path =
     (case lookup_parent fs path of
        Inl err \<Rightarrow> Inl err
      | Inr segs \<Rightarrow>
          if NAME_MAX < length (last segs) then Inl (SystemError ENAMETOOLONG)
          else (case fs segs of
                  None \<Rightarrow> Inl (SystemError ENOENT)
                | Some Dir \<Rightarrow> Inl (SystemError EISDIR)
                | Some (File data) \<Rightarrow>
                    if trailingSeparator path then Inl (SystemError ENOTDIR) else Inr data))"

text \<open>
  \<open>err.message\<close> of a failed system call, as Node formats it:
  \<open>CODE: description, syscall 'path'\<close>.
\<close>

fun errno_code :: "errno \<Rightarrow> string" where
  "errno_code ENOENT = ''ENOENT''"
| "errno_code ENOTDIR = ''ENOTDIR''"
| "errno_code EISDIR = ''EISDIR''"
| "errno_code ENAMETOOLONG = ''ENAMETOOLONG''"

fun errno_description :: "errno \<Rightarrow> string" where
  "errno_description ENOENT = ''no such file or directory''"
| "errno_description ENOTDIR = ''not a directory''"
| "errno_description EISDIR = ''illegal operation on a directory''"
| "errno_description ENAMETOOLONG = ''name too long''"

definition err_message :: "errno \<Rightarrow> string \<Rightarrow> string \<Rightarrow> string" where
  "err_message err syscall path =
     errno_code err @ '': '' @ errno_description err @ '', '' @ syscall
       @ '' '' @ [CHR 0x27] @ path @ [CHR 0x27]"

subsection \<open>Responses\<close>

text \<open>
  A response is a status code and a body: \<open>{ message: ... }\<close>, \<open>{ error: ... }\<close>, or
  the page of Express's default error handler, which answers when a handler throws or
  a middleware passes an error on.
\<close>

datatype body = Message string | Error string | ErrorPage

datatype response = Response (status: nat) (body: body)

definition is_success :: "response \<Rightarrow> bool" where
  "is_success r = (status r = 200)"

fun error_of :: "response \<Rightarrow> string option" where
  "error_of (Response _ (Error msg)) = Some msg"
| "error_of (Response _ _) = None"

subsection \<open>The routes\<close>

text \<open>
  \<open>const BASE_DIR = path.join(__dirname, 'user_files')\<close>. The directory of the script,
  \<open>__dirname\<close>, is a parameter of the model; Node always gives an absolute path.
\<close>

definition BASE_DIR :: "string \<Rightarrow> string" where
  "BASE_DIR dirname = path_join dirname ''user_files''"

text \<open>
  The three JSON routes. When the \<open>fs\<close> function throws instead of calling back, the
  handler has no \<open>try\<close> around it, and Express's default error handler answers with
  its error page and status 500. Otherwise the callback answers: status 500 with the
  error's message, or the route's success message. The fields \<open>filename\<close> and
  \<open>content\<close> are taken as strings, as the interface declares them.
\<close>

definition create_handler ::
  "string \<Rightarrow> filesystem \<Rightarrow> string \<Rightarrow> string \<Rightarrow> response \<times> filesystem" where
  "create_handler dirname fs filename content =
     (let filePath = path_join (BASE_DIR dirname) filename in
      case writeFile fs filePath content of
        Inl ERR_INVALID_ARG_VALUE \<Rightarrow> (Response 500 ErrorPage, fs)
      | Inl (SystemError err) \<Rightarrow>
          (Response 500 (Error (err_message err ''open'' filePath)), fs)
      | Inr fs' \<Rightarrow> (Response 200 (Message ''File created successfully!''), fs'))"

definition edit_handler ::
  "string \<Rightarrow> filesystem \<Rightarrow> string \<Rightarrow> string \<Rightarrow> response \<times> filesystem" where
  "edit_handler dirname fs filename content =
     (let filePath = path_join (BASE_DIR dirname) filename in
      case writeFile fs filePath content of
        Inl ERR_INVALID_ARG_VALUE \<Rightarrow> (Response 500 ErrorPage, fs)
      | Inl (SystemError err) \<Rightarrow>
          (Response 500 (Error (err_message err ''open'' filePath)), fs)
      | Inr fs' \<Rightarrow> (Response 200 (Message ''File edited successfully!''), fs'))"

definition delete_handler ::
  "string \<Rightarrow> filesystem \<Rightarrow> string \<Rightarrow> response \<times> filesystem" where
  "delete_handler dirname fs filename =
     (let filePath = path_join (BASE_DIR dirname) filename in
      case unlink fs filePath of
        Inl ERR_INVALID_ARG_VALUE \<Rightarrow> (Response 500 ErrorPage, fs)
      | Inl (SystemError err) \<Rightarrow>
          (Response 500 (Error (err_message err ''unlink'' filePath)), fs)
      | Inr fs' \<Rightarrow> (Response 200 (Message ''File deleted successfully!''), fs'))"

text \<open>
  \<open>upload.array('files')\<close> with multer's disk storage. The multipart parser (busboy,
  \<open>preservePath\<close> off as \<open>multer({ storage })\<close> leaves it) cuts the file name of a part
  to its base name, the part after the last slash or backslash, and turns \<open>.\<close> and
  \<open>..\<close> into the empty name; this is \<open>file.originalname\<close>.
\<close>

definition basename :: "string \<Rightarrow> string" where
  "basename path =
     (let base = rev (takeWhile (\<lambda>c. c \<noteq> CHR ''/'' \<and> c \<noteq> CHR 0x5C) (rev path))
      in if base = ''..'' \<or> base = ''.'' then [] else base)"

text \<open>
  The parts of the request are taken in order. A part whose file name is empty is not
  a file and is skipped; every other part is written, as \<open>fs.writeFile\<close> would, to
  \<open>path.join(destination, filename)\<close>, where the destination is \<open>BASE_DIR\<close> and the
  file name is \<open>file.originalname\<close>. When a write fails, multer removes the files this
  request has stored so far and passes the error on, so the route's own handler does
  not run. \<open>stored\<close> lists the paths written so far.
\<close>

fun remove_uploaded :: "filesystem \<Rightarrow> string list \<Rightarrow> filesystem" where
  "remove_uploaded fs [] = fs"
| "remove_uploaded fs (path # paths) =
     remove_uploaded (case unlink fs path of Inl _ \<Rightarrow> fs | Inr fs' \<Rightarrow> fs') paths"

fun multer_array ::
  "string \<Rightarrow> filesystem \<Rightarrow> string list \<Rightarrow> (string \<times> string) list
     \<Rightarrow> fs_error option \<times> filesystem" where
  "multer_array destination fs stored [] = (None, fs)"
| "multer_array destination fs stored ((filename, bytes) # files) =
     (let originalname = basename filename in
      if originalname = [] then multer_array destination fs stored files
      else
        let finalPath = path_join destination originalname in
        (case writeFile fs finalPath bytes of
           Inl err \<Rightarrow> (Some err, remove_uploaded fs stored)
         | Inr fs' \<Rightarrow> multer_array destination fs' (stored @ [finalPath]) files))"

text \<open>
  The route's handler ignores the request and answers with a fixed message.
\<close>

definition upload_handler ::
  "string \<Rightarrow> filesystem \<Rightarrow> (string \<times> string) list \<Rightarrow> response \<times> filesystem" where
  "upload_handler dirname fs files =
     (case multer_array (BASE_DIR dirname) fs [] files of
        (Some err, fs') \<Rightarrow> (Response 500 ErrorPage, fs')
      | (None, fs') \<Rightarrow> (Response 200 (Message ''Files uploaded successfully!''), fs'))"

subsection \<open>Concrete states and auxiliary notions\<close>

text \<open>
  The components that \<open>path.join base name\<close> puts before a plain \<open>name\<close>: the
  normalized segments of \<open>base\<close>.
\<close>

definition parent_of :: "string \<Rightarrow> string list" where
  "parent_of base = normalizeString (\<not> isAbsolute base) [] (split_on CHR ''/'' base)"

text \<open>
  A freshly started server on \<open>/app\<close>: the script's directory and the storage root
  exist and are empty. And the same with two stored files.
\<close>

definition fs0 :: filesystem where
  "fs0 = [[''app''] \<mapsto> Dir, [''app'', ''user_files''] \<mapsto> Dir]"

definition fs_notes :: filesystem where
  "fs_notes = [[''app''] \<mapsto> Dir, [''app'', ''user_files''] \<mapsto> Dir,
               [''app'', ''user_files'', ''notes.txt''] \<mapsto> File ''hello'',
               [''app'', ''user_files'', ''todo.txt''] \<mapsto> File ''milk'']"

text \<open>A machine with a password file next to the application.\<close>

definition fs_passwd :: filesystem where
  "fs_passwd = [[''app''] \<mapsto> Dir, [''app'', ''user_files''] \<mapsto> Dir,
                [''etc''] \<mapsto> Dir, [''etc'', ''passwd''] \<mapsto> File ''root'']"


section \<open>Properties\<close>

subsection \<open>Splitting, joining and normalizing paths\<close>

lemma split_on_not_Nil [simp]: "split_on c s \<noteq> []"
  by (induction s) (auto split: list.splits)

lemma split_on_append: "split_on c (a @ c # b) = split_on c a @ split_on c b"
  by (induction a) (auto split: list.splits)

lemma split_on_no_sep: "s \<in> set (split_on c xs) \<Longrightarrow> c \<notin> set s"
proof (induction xs arbitrary: s)
  case Nil
  then show ?case by simp
next
  case (Cons x xs)
  then show ?case by (auto split: if_splits list.splits)
qed

lemma split_on_single: "c \<notin> set s \<Longrightarrow> split_on c s = [s]"
  by (induction s) (auto split: list.splits)

lemma split_on_join_with:
  "segs \<noteq> [] \<Longrightarrow> \<forall>s\<in>set segs. c \<notin> set s \<Longrightarrow> split_on c (join_with [c] segs) = segs"
proof (induction "[c]" segs rule: join_with.induct)
  case 1
  then show ?case by simp
next
  case (2 s)
  then show ?case by (simp add: split_on_single)
next
  case (3 s t ss)
  then show ?case by (simp add: split_on_append split_on_single)
qed

lemma normalizeString_append:
  "normalizeString a res (xs @ ys) = normalizeString a (rev (normalizeString a res xs)) ys"
  by (induction xs arbitrary: res) auto

lemma normalizeString_set:
  "s \<in> set (normalizeString a res segs) \<Longrightarrow>
     s \<in> set res \<or> (s \<in> set segs \<and> s \<noteq> [] \<and> s \<noteq> ''.'' \<and> (s = ''..'' \<longrightarrow> a))"
proof (induction segs arbitrary: res)
  case Nil
  then show ?case by simp
next
  case (Cons seg segs)
  show ?case
  proof (cases res)
    case Nil
    with Cons.prems Cons.IH [of "[]"] Cons.IH [of "[''..'']"] Cons.IH [of "[seg]"]
    show ?thesis by (auto split: if_splits)
  next
    case (Cons r rs)
    with Cons.prems Cons.IH [of res] Cons.IH [of rs] Cons.IH [of "''..'' # res"]
      Cons.IH [of "seg # res"]
    show ?thesis by (auto split: if_splits)
  qed
qed

lemma normalizeString_no_dotdot:
  "''..'' \<notin> set segs \<Longrightarrow>
     normalizeString a res segs = rev res @ filter (\<lambda>s. s \<noteq> [] \<and> s \<noteq> ''.'') segs"
  by (induction segs arbitrary: res) auto


lemma join_with_not_Nil: "segs \<noteq> [] \<Longrightarrow> \<forall>s\<in>set segs. s \<noteq> [] \<Longrightarrow> join_with sep segs \<noteq> []"
  by (induction sep segs rule: join_with.induct) auto

lemma normalized_segments:
  assumes "s \<in> set (normalizeString a [] (split_on CHR ''/'' p))"
  shows "s \<noteq> []" and "s \<noteq> ''.''" and "CHR ''/'' \<notin> set s" and "s = ''..'' \<longrightarrow> a"
  using normalizeString_set [OF assms] split_on_no_sep [of s "CHR ''/''" p] by auto

lemma components_slash_join:
  assumes "segs \<noteq> []" and "\<forall>s\<in>set segs. s \<noteq> [] \<and> CHR ''/'' \<notin> set s"
    and "pre = [] \<or> pre = ''/''" and "post = [] \<or> post = ''/''"
  shows "components (pre @ join_with ''/'' segs @ post) = segs"
proof -
  have sp: "split_on CHR ''/'' (join_with ''/'' segs) = segs"
    using assms by (simp add: split_on_join_with)
  have post: "split_on CHR ''/'' (join_with ''/'' segs @ post) = segs \<or>
              split_on CHR ''/'' (join_with ''/'' segs @ post) = segs @ [[]]"
    using assms(4) sp split_on_append [of "CHR ''/''" "join_with ''/'' segs" "[]"] by auto
  have ne: "filter (\<lambda>seg. seg \<noteq> []) segs = segs"
    using assms(2) by (simp add: filter_id_conv)
  from assms(3) post ne show ?thesis
    by (auto simp: components_def)
qed

lemma components_posix_normalize:
  assumes "p \<noteq> []"
    and "normalizeString (\<not> isAbsolute p) [] (split_on CHR ''/'' p) \<noteq> [] \<or> isAbsolute p"
  shows "components (posix_normalize p) = normalizeString (\<not> isAbsolute p) [] (split_on CHR ''/'' p)"
proof (cases "normalizeString (\<not> isAbsolute p) [] (split_on CHR ''/'' p) = []")
  case True
  with assms show ?thesis
    by (simp add: posix_normalize_def components_def)
next
  case False
  have "\<forall>s\<in>set (normalizeString (\<not> isAbsolute p) [] (split_on CHR ''/'' p)).
          s \<noteq> [] \<and> CHR ''/'' \<notin> set s"
    using normalized_segments by blast
  from components_slash_join [OF False this] assms(1) False show ?thesis
    by (simp add: posix_normalize_def Let_def)
qed

lemma posix_normalize_not_Nil: "posix_normalize p \<noteq> []"
proof -
  have "\<forall>s\<in>set (normalizeString (\<not> isAbsolute p) [] (split_on CHR ''/'' p)). s \<noteq> []"
    using normalized_segments by blast
  then show ?thesis
    using join_with_not_Nil [of "normalizeString (\<not> isAbsolute p) [] (split_on CHR ''/'' p)" "''/''"]
    by (auto simp: posix_normalize_def Let_def)
qed

lemma path_join_not_Nil: "path_join a b \<noteq> []"
  by (simp add: path_join_def posix_normalize_not_Nil)

lemma BASE_DIR_not_Nil: "BASE_DIR d \<noteq> []"
  by (simp add: BASE_DIR_def path_join_not_Nil)

lemma components_join_name:
  assumes "base \<noteq> []" and "CHR ''/'' \<notin> set name"
    and "name \<noteq> []" and "name \<noteq> ''.''" and "name \<noteq> ''..''"
  shows "components (path_join base name) = parent_of base @ [name]"
proof -
  let ?p = "base @ ''/'' @ name"
  have abs: "isAbsolute ?p = isAbsolute base"
    using assms(1) by (cases base) (auto simp: isAbsolute_def)
  have "split_on CHR ''/'' ?p = split_on CHR ''/'' base @ [name]"
    using assms(2) by (simp add: split_on_append split_on_single)
  then have n: "normalizeString (\<not> isAbsolute ?p) [] (split_on CHR ''/'' ?p) = parent_of base @ [name]"
    using abs assms(3-5) by (simp add: normalizeString_append parent_of_def)
  have "components (posix_normalize ?p) = parent_of base @ [name]"
    using components_posix_normalize [of ?p] n by simp
  then show ?thesis
    using assms(1,3) by (simp add: path_join_def)
qed


text \<open>Absolute paths: \<open>path.join\<close> resolves the name against the segments of the base.\<close>

lemma isAbsolute_Cons: "isAbsolute (c # p) = (c = CHR ''/'')"
  by (simp add: isAbsolute_def)

lemma isAbsolute_append: "isAbsolute p \<Longrightarrow> isAbsolute (p @ q)"
  by (cases p) (auto simp: isAbsolute_def)

lemma isAbsolute_posix_normalize: "isAbsolute p \<Longrightarrow> isAbsolute (posix_normalize p)"
  by (auto simp: posix_normalize_def Let_def isAbsolute_def)

lemma normalizeString_clean:
  assumes "\<forall>s\<in>set segs. s \<noteq> [] \<and> s \<noteq> ''.'' \<and> s \<noteq> ''..''"
  shows "normalizeString a res segs = rev res @ segs"
proof -
  have "''..'' \<notin> set segs"
    using assms by blast
  moreover have "filter (\<lambda>s. s \<noteq> [] \<and> s \<noteq> ''.'') segs = segs"
    using assms by (simp add: filter_id_conv)
  ultimately show ?thesis
    by (simp add: normalizeString_no_dotdot)
qed

lemma posix_normalize_absolute:
  assumes "isAbsolute p"
  shows "posix_normalize p =
     (if parent_of p = [] then ''/''
      else ''/'' @ join_with ''/'' (parent_of p) @ (if trailingSeparator p then ''/'' else []))"
proof -
  have "p \<noteq> []"
    using assms by (auto simp: isAbsolute_def)
  then show ?thesis
    using assms by (simp add: posix_normalize_def parent_of_def Let_def)
qed

lemma parent_of_segments:
  assumes "s \<in> set (parent_of p)"
  shows "s \<noteq> []" and "s \<noteq> ''.''" and "CHR ''/'' \<notin> set s" and "isAbsolute p \<Longrightarrow> s \<noteq> ''..''"
  using normalized_segments [of s "\<not> isAbsolute p" p] assms
  by (auto simp: parent_of_def)

lemma normalizeString_drop_empty:
  "normalizeString a res ([] # segs) = normalizeString a res segs"
  "normalizeString a res (segs @ [[]]) = normalizeString a res segs"
  by (simp_all add: normalizeString_append)

lemma parent_of_posix_normalize:
  assumes "isAbsolute p"
  shows "parent_of (posix_normalize p) = parent_of p"
proof (cases "parent_of p = []")
  case True
  have "parent_of ''/'' = []"
    by (simp add: parent_of_def isAbsolute_def)
  then show ?thesis
    using True by (simp add: posix_normalize_absolute [OF assms])
next
  case False
  let ?N = "parent_of p"
  let ?q = "join_with ''/'' ?N @ (if trailingSeparator p then ''/'' else [])"
  have seg: "\<forall>s\<in>set ?N. CHR ''/'' \<notin> set s"
    using parent_of_segments(3) by blast
  have clean: "\<forall>s\<in>set ?N. s \<noteq> [] \<and> s \<noteq> ''.'' \<and> s \<noteq> ''..''"
    using parent_of_segments(1,2,4) assms by blast
  have sp: "split_on CHR ''/'' (join_with ''/'' ?N) = ?N"
    using False seg by (rule split_on_join_with)
  have "split_on CHR ''/'' (join_with ''/'' ?N @ ''/'') = ?N @ [[]]"
    using sp split_on_append [of "CHR ''/''" "join_with ''/'' ?N" "[]"] by simp
  with sp have "normalizeString False [] (split_on CHR ''/'' ?q) = normalizeString False [] ?N"
    by (simp add: normalizeString_drop_empty)
  also have "\<dots> = ?N"
    using clean by (simp add: normalizeString_clean)
  finally have n: "normalizeString False [] (split_on CHR ''/'' ?q) = ?N" .
  have pn: "posix_normalize p = CHR ''/'' # ?q"
    using False by (simp add: posix_normalize_absolute [OF assms])
  have "parent_of (CHR ''/'' # ?q) = normalizeString False [] (split_on CHR ''/'' ?q)"
    by (simp only: parent_of_def isAbsolute_Cons split_on.simps normalizeString_drop_empty
        simp_thms if_True)
  then show ?thesis
    by (simp only: pn n)
qed

lemma components_posix_normalize_absolute:
  assumes "isAbsolute p"
  shows "components (posix_normalize p) = parent_of p"
proof -
  have "p \<noteq> []"
    using assms by (auto simp: isAbsolute_def)
  then show ?thesis
    using assms components_posix_normalize [of p] by (simp add: parent_of_def)
qed

lemma BASE_DIR_absolute:
  assumes "isAbsolute d"
  shows "isAbsolute (BASE_DIR d)" and "components (BASE_DIR d) = parent_of (BASE_DIR d)"
proof -
  have ne: "d \<noteq> []"
    using assms by (auto simp: isAbsolute_def)
  have abs: "isAbsolute (d @ ''/user_files'')"
    using assms by (rule isAbsolute_append)
  have B: "BASE_DIR d = posix_normalize (d @ ''/user_files'')"
    using ne by (simp add: BASE_DIR_def path_join_def)
  show "isAbsolute (BASE_DIR d)"
    unfolding B using abs by (rule isAbsolute_posix_normalize)
  show "components (BASE_DIR d) = parent_of (BASE_DIR d)"
    unfolding B
    by (simp only: components_posix_normalize_absolute [OF abs] parent_of_posix_normalize [OF abs])
qed

lemma components_path_join_absolute:
  assumes "isAbsolute base"
  shows "components (path_join base f)
           = normalizeString False (rev (parent_of base)) (split_on CHR ''/'' f)"
proof (cases "f = []")
  case True
  have "base \<noteq> []"
    using assms by (auto simp: isAbsolute_def)
  then have "path_join base f = posix_normalize base"
    using True by (simp add: path_join_def)
  then show ?thesis
    using True by (simp add: components_posix_normalize_absolute [OF assms])
next
  case False
  have ne: "base \<noteq> []"
    using assms by (auto simp: isAbsolute_def)
  have abs: "isAbsolute (base @ CHR ''/'' # f)"
    using assms by (rule isAbsolute_append)
  have "path_join base f = posix_normalize (base @ CHR ''/'' # f)"
    using False ne by (simp add: path_join_def)
  then have "components (path_join base f) = parent_of (base @ CHR ''/'' # f)"
    by (simp only: components_posix_normalize_absolute [OF abs])
  also have "\<dots> = normalizeString False [] (split_on CHR ''/'' base @ split_on CHR ''/'' f)"
    using abs by (simp add: parent_of_def split_on_append)
  also have "\<dots> = normalizeString False (rev (normalizeString False [] (split_on CHR ''/'' base)))
                     (split_on CHR ''/'' f)"
    by (rule normalizeString_append)
  also have "normalizeString False [] (split_on CHR ''/'' base) = parent_of base"
    using assms by (simp add: parent_of_def)
  finally show ?thesis .
qed

subsection \<open>The file system operations\<close>

lemma walk_fun_upd:
  "length pre + length segs < length k \<Longrightarrow> walk (fs(k := v)) pre segs = walk fs pre segs"
  by (induction segs arbitrary: pre) (auto split: option.splits node.splits)

lemma lookup_parent_fun_upd:
  assumes "length (components path) \<le> length k"
  shows "lookup_parent (fs(k := v)) path = lookup_parent fs path"
proof (cases "components path = []")
  case True
  then show ?thesis by (simp add: lookup_parent_def)
next
  case False
  then have "length (butlast (components path)) < length k"
    using assms by (cases "components path" rule: rev_cases) auto
  then have "walk (fs(k := v)) [] (butlast (components path))
               = walk fs [] (butlast (components path))"
    by (intro walk_fun_upd) simp
  then show ?thesis by (simp add: lookup_parent_def Let_def)
qed

lemma lookup_parent_Inr:
  assumes "lookup_parent fs path = Inr segs"
  shows "segs = components path" and "segs \<noteq> []"
  using assms
  by (auto simp: lookup_parent_def Let_def split: if_splits option.splits)

lemma writeFile_Inr:
  assumes "writeFile fs path data = Inr fs'"
  shows "fs' = fs(components path \<mapsto> File data)"
    and "lookup_parent fs path = Inr (components path)"
    and "\<not> trailingSeparator path"
    and "\<not> NAME_MAX < length (last (components path))"
    and "fs (components path) \<noteq> Some Dir"
  using assms
  by (auto simp: writeFile_def split: sum.splits if_splits option.splits node.splits
      dest: lookup_parent_Inr)

lemma writeFile_ok:
  assumes "lookup_parent fs path = Inr (components path)"
    and "\<not> trailingSeparator path"
    and "\<not> NAME_MAX < length (last (components path))"
    and "fs (components path) \<noteq> Some Dir"
  shows "writeFile fs path data = Inr (fs(components path \<mapsto> File data))"
  using assms
  by (auto simp: writeFile_def split: option.splits node.splits)

lemma readFile_after_writeFile:
  assumes "writeFile fs path data = Inr fs'"
  shows "readFile fs' path = Inr data"
proof -
  note w = writeFile_Inr [OF assms]
  have "lookup_parent fs' path = Inr (components path)"
    unfolding w(1) using w(2) by (simp add: lookup_parent_fun_upd)
  then show ?thesis
    using w(3,4) by (simp add: readFile_def w(1))
qed

lemma writeFile_again:
  assumes "writeFile fs path a = Inr fs'"
  shows "writeFile fs' path b = Inr (fs'(components path \<mapsto> File b))"
proof -
  note w = writeFile_Inr [OF assms]
  have "lookup_parent fs' path = Inr (components path)"
    unfolding w(1) using w(2) by (simp add: lookup_parent_fun_upd)
  then show ?thesis
    using w(3,4) by (intro writeFile_ok) (simp_all add: w(1))
qed

lemma writeFile_elsewhere:
  assumes "writeFile fs path data = Inr fs'" and "segs \<noteq> components path"
  shows "fs' segs = fs segs"
  using writeFile_Inr(1) [OF assms(1)] assms(2) by simp

lemma unlink_elsewhere:
  assumes "unlink fs path = Inr fs'" and "segs \<noteq> components path"
  shows "fs' segs = fs segs"
  using assms
  by (auto simp: unlink_def split: sum.splits if_splits option.splits node.splits
      dest: lookup_parent_Inr)

lemma readFile_after_sibling_write:
  assumes w: "writeFile fs q data = Inr fs'"
    and r: "readFile fs p = Inr x"
    and len: "length (components p) \<le> length (components q)"
    and ne: "components p \<noteq> components q"
  shows "readFile fs' p = Inr x"
proof -
  have fs': "fs' = fs(components q \<mapsto> File data)"
    using w by (rule writeFile_Inr(1))
  have eq1: "lookup_parent fs' p = lookup_parent fs p"
    unfolding fs' using len by (rule lookup_parent_fun_upd)
  obtain segs where segs: "lookup_parent fs p = Inr segs"
    using r by (cases "lookup_parent fs p") (auto simp: readFile_def)
  then have "segs = components p"
    by (rule lookup_parent_Inr)
  then have eq2: "fs' segs = fs segs"
    using ne by (simp add: fs')
  have "readFile fs' p = readFile fs p"
    by (simp only: readFile_def eq1 segs sum.case eq2)
  with r show ?thesis by simp
qed

lemma readFile_ENOENT_unlink:
  assumes "readFile fs path = Inl (SystemError ENOENT)"
  shows "unlink fs path = Inl (SystemError ENOENT)"
  using assms
  by (auto simp: readFile_def unlink_def split: sum.splits if_splits option.splits node.splits)

subsection \<open>The routes\<close>

lemma create_handler_success:
  assumes "is_success (fst (create_handler d fs f c))"
  shows "writeFile fs (path_join (BASE_DIR d) f) c = Inr (snd (create_handler d fs f c))"
  using assms by (auto simp: create_handler_def is_success_def Let_def split: sum.splits fs_error.splits)

lemma edit_handler_success:
  assumes "is_success (fst (edit_handler d fs f c))"
  shows "writeFile fs (path_join (BASE_DIR d) f) c = Inr (snd (edit_handler d fs f c))"
  using assms by (auto simp: edit_handler_def is_success_def Let_def split: sum.splits fs_error.splits)

lemma edit_handler_written:
  assumes "writeFile fs (path_join (BASE_DIR d) f) c = Inr fs'"
  shows "edit_handler d fs f c = (Response 200 (Message ''File edited successfully!''), fs')"
  using assms by (simp add: edit_handler_def)

lemma create_handler_success_response:
  "is_success (fst (create_handler d fs f c)) \<Longrightarrow>
     fst (create_handler d fs f c) = Response 200 (Message ''File created successfully!'')"
  by (auto simp: create_handler_def is_success_def Let_def split: sum.splits fs_error.splits)

lemma edit_handler_success_response:
  "is_success (fst (edit_handler d fs f c)) \<Longrightarrow>
     fst (edit_handler d fs f c) = Response 200 (Message ''File edited successfully!'')"
  by (auto simp: edit_handler_def is_success_def Let_def split: sum.splits fs_error.splits)

lemma delete_handler_success_response:
  "is_success (fst (delete_handler d fs f)) \<Longrightarrow>
     fst (delete_handler d fs f) = Response 200 (Message ''File deleted successfully!'')"
  by (auto simp: delete_handler_def is_success_def Let_def split: sum.splits fs_error.splits)

lemma upload_handler_success_response:
  "is_success (fst (upload_handler d fs files)) \<Longrightarrow>
     fst (upload_handler d fs files) = Response 200 (Message ''Files uploaded successfully!'')"
  by (auto simp: upload_handler_def is_success_def split: prod.splits option.splits)

text \<open>A request changes the file system only at the paths it resolves to.\<close>

lemma create_handler_elsewhere:
  "segs \<noteq> components (path_join (BASE_DIR d) f) \<Longrightarrow> snd (create_handler d fs f c) segs = fs segs"
  by (auto simp: create_handler_def Let_def split: sum.splits fs_error.splits dest: writeFile_elsewhere)

lemma edit_handler_elsewhere:
  "segs \<noteq> components (path_join (BASE_DIR d) f) \<Longrightarrow> snd (edit_handler d fs f c) segs = fs segs"
  by (auto simp: edit_handler_def Let_def split: sum.splits fs_error.splits dest: writeFile_elsewhere)

lemma delete_handler_elsewhere:
  "segs \<noteq> components (path_join (BASE_DIR d) f) \<Longrightarrow> snd (delete_handler d fs f) segs = fs segs"
  by (auto simp: delete_handler_def Let_def split: sum.splits fs_error.splits dest: unlink_elsewhere)

lemma remove_uploaded_elsewhere:
  "segs \<notin> components ` set paths \<Longrightarrow> remove_uploaded fs paths segs = fs segs"
proof (induction paths arbitrary: fs)
  case Nil
  then show ?case by simp
next
  case (Cons p paths)
  then have "(case unlink fs p of Inl _ \<Rightarrow> fs | Inr fs' \<Rightarrow> fs') segs = fs segs"
    by (auto split: sum.splits fs_error.splits dest: unlink_elsewhere)
  with Cons show ?case by simp
qed

lemma basename_plain:
  assumes "basename name \<noteq> []"
  shows "CHR ''/'' \<notin> set (basename name)" and "basename name \<noteq> ''.''"
    and "basename name \<noteq> ''..''"
proof -
  let ?base = "rev (takeWhile (\<lambda>c. c \<noteq> CHR ''/'' \<and> c \<noteq> CHR 0x5C) (rev name))"
  have "CHR ''/'' \<notin> set ?base"
    by (auto dest: set_takeWhileD)
  then show "CHR ''/'' \<notin> set (basename name)"
    by (simp add: basename_def Let_def)
  show "basename name \<noteq> ''.''" and "basename name \<noteq> ''..''"
    using assms by (auto simp: basename_def Let_def split: if_splits)
qed

lemma components_join_basename:
  assumes "dest \<noteq> []" and "basename name \<noteq> []"
  shows "components (path_join dest (basename name)) = parent_of dest @ [basename name]"
  using assms(1) basename_plain [OF assms(2)] assms(2) by (intro components_join_name)

lemma multer_array_elsewhere:
  assumes "multer_array dest fs stored files = (e, fs')"
    and "dest \<noteq> []"
    and "segs \<notin> components ` set stored"
    and "segs \<notin> (\<lambda>(name, bytes). parent_of dest @ [basename name]) ` set files"
  shows "fs' segs = fs segs"
  using assms
proof (induction files arbitrary: fs stored)
  case Nil
  then show ?case by simp
next
  case (Cons entry files)
  obtain name bytes where entry: "entry = (name, bytes)"
    by (cases entry)
  have seg: "segs \<noteq> parent_of dest @ [basename name]"
    and rest: "segs \<notin> (\<lambda>(name, bytes). parent_of dest @ [basename name]) ` set files"
    using Cons.prems(4) entry by auto
  show ?case
  proof (cases "basename name = []")
    case True
    with Cons.prems(1) entry have "multer_array dest fs stored files = (e, fs')"
      by simp
    then show ?thesis
      using Cons.prems(2,3) rest by (rule Cons.IH)
  next
    case False
    let ?path = "path_join dest (basename name)"
    have seg': "segs \<noteq> components ?path"
      using seg by (simp add: components_join_basename [OF Cons.prems(2) False])
    show ?thesis
    proof (cases "writeFile fs ?path bytes")
      case (Inl err)
      with Cons.prems(1) entry False have "fs' = remove_uploaded fs stored"
        by (simp add: Let_def)
      then show ?thesis
        using Cons.prems(3) by (simp add: remove_uploaded_elsewhere)
    next
      case (Inr fs1)
      with Cons.prems(1) entry False
      have "multer_array dest fs1 (stored @ [?path]) files = (e, fs')"
        by (simp add: Let_def)
      moreover have "segs \<notin> components ` set (stored @ [?path])"
        using Cons.prems(3) seg' by auto
      ultimately have "fs' segs = fs1 segs"
        using Cons.prems(2) rest by (intro Cons.IH)
      then show ?thesis
        using writeFile_elsewhere [OF Inr seg'] by simp
    qed
  qed
qed

lemma upload_handler_elsewhere:
  assumes "segs \<notin> (\<lambda>(name, bytes). parent_of (BASE_DIR d) @ [basename name]) ` set files"
  shows "snd (upload_handler d fs files) segs = fs segs"
proof -
  obtain e fs' where m: "multer_array (BASE_DIR d) fs [] files = (e, fs')"
    by (cases "multer_array (BASE_DIR d) fs [] files")
  have "fs' segs = fs segs"
    using m BASE_DIR_not_Nil _ assms by (rule multer_array_elsewhere) simp
  then show ?thesis
    by (simp add: upload_handler_def m split: option.splits)
qed









section \<open>The claims\<close>

text \<open>
  C4. For every file name and every content: when Create succeeds, reading the file at
  the resolved path \<open>path.join(BASE_DIR, filename)\<close> afterwards yields exactly the
  content that was supplied.
\<close>

theorem create_then_read:
  assumes "is_success (fst (create_handler d fs f c))"
  shows "readFile (snd (create_handler d fs f c)) (path_join (BASE_DIR d) f) = Inr c"
  using create_handler_success [OF assms] by (rule readFile_after_writeFile)

theorem create_then_read_witness:
  "is_success (fst (create_handler ''/app'' fs0 ''notes.txt'' ''hello''))
   \<and> readFile (snd (create_handler ''/app'' fs0 ''notes.txt'' ''hello''))
        (path_join (BASE_DIR ''/app'') ''notes.txt'') = Inr ''hello''"
proof -
  have "fst (create_handler ''/app'' fs0 ''notes.txt'' ''hello'')
          = Response 200 (Message ''File created successfully!'')"
    by code_simp
  then have ok: "is_success (fst (create_handler ''/app'' fs0 ''notes.txt'' ''hello''))"
    by (simp add: is_success_def)
  from ok create_then_read [OF ok] show ?thesis by (rule conjI)
qed

text \<open>
  C5. Edit replaces the content of the file entirely: when a first Edit has written
  \<open>a\<close> to a file name, whatever the file held before, a second Edit of the same name with
  \<open>b\<close> succeeds, and the file then holds exactly \<open>b\<close>: nothing of \<open>a\<close> is kept.
\<close>

theorem edit_replaces_content:
  assumes "is_success (fst (edit_handler d fs f a))"
  shows "is_success (fst (edit_handler d (snd (edit_handler d fs f a)) f b))
         \<and> readFile (snd (edit_handler d (snd (edit_handler d fs f a)) f b))
              (path_join (BASE_DIR d) f) = Inr b"
proof -
  let ?p = "path_join (BASE_DIR d) f"
  let ?fs1 = "snd (edit_handler d fs f a)"
  have w1: "writeFile fs ?p a = Inr ?fs1"
    using assms by (rule edit_handler_success)
  have w2: "writeFile ?fs1 ?p b = Inr (?fs1(components ?p \<mapsto> File b))"
    using w1 by (rule writeFile_again)
  have "readFile (?fs1(components ?p \<mapsto> File b)) ?p = Inr b"
    using w2 by (rule readFile_after_writeFile)
  then show ?thesis
    by (simp add: edit_handler_written [OF w2] is_success_def)
qed

theorem edit_replaces_content_witness:
  "is_success (fst (edit_handler ''/app'' fs0 ''notes.txt'' ''A''))
   \<and> is_success (fst (edit_handler ''/app'' (snd (edit_handler ''/app'' fs0 ''notes.txt'' ''A''))
        ''notes.txt'' ''B''))
   \<and> readFile (snd (edit_handler ''/app'' (snd (edit_handler ''/app'' fs0 ''notes.txt'' ''A''))
        ''notes.txt'' ''B'')) (path_join (BASE_DIR ''/app'') ''notes.txt'') = Inr ''B''"
proof -
  have "fst (edit_handler ''/app'' fs0 ''notes.txt'' ''A'')
          = Response 200 (Message ''File edited successfully!'')"
    by code_simp
  then have ok: "is_success (fst (edit_handler ''/app'' fs0 ''notes.txt'' ''A''))"
    by (simp add: is_success_def)
  from ok edit_replaces_content [OF ok] show ?thesis by (rule conjI)
qed

text \<open>
  C6. Create and Edit are the same operation at the gateway: for every file name and
  content they leave the same file system behind, answer with the same status, succeed
  or fail together, and report the same error when they fail.
\<close>

theorem create_edit_same_effect:
  "snd (create_handler d fs f c) = snd (edit_handler d fs f c)
   \<and> status (fst (create_handler d fs f c)) = status (fst (edit_handler d fs f c))
   \<and> is_success (fst (create_handler d fs f c)) = is_success (fst (edit_handler d fs f c))
   \<and> error_of (fst (create_handler d fs f c)) = error_of (fst (edit_handler d fs f c))"
  by (simp add: create_handler_def edit_handler_def is_success_def Let_def split: sum.splits fs_error.splits)

text \<open>
  C9. An upload with no files is not rejected: the route answers with its success
  message, the same response as a successful upload of a non-empty batch gets, and the
  file system is unchanged.
\<close>

theorem upload_empty_batch:
  "upload_handler d fs [] = (Response 200 (Message ''Files uploaded successfully!''), fs)
   \<and> (is_success (fst (upload_handler d' fs' files)) \<longrightarrow>
        fst (upload_handler d fs []) = fst (upload_handler d' fs' files))"
  by (simp add: upload_handler_success_response) (simp add: upload_handler_def)

theorem upload_empty_batch_witness:
  "is_success (fst (upload_handler ''/app'' fs0 [(''a.txt'', ''A'')]))
   \<and> upload_handler ''/app'' fs_notes [] = (Response 200 (Message ''Files uploaded successfully!''), fs_notes)
   \<and> fst (upload_handler ''/app'' fs_notes []) = fst (upload_handler ''/app'' fs0 [(''a.txt'', ''A'')])"
proof -
  have ok: "is_success (fst (upload_handler ''/app'' fs0 [(''a.txt'', ''A'')]))"
    by code_simp
  from ok upload_empty_batch [of "''/app''" fs_notes "''/app''" fs0 "[(''a.txt'', ''A'')]"]
  show ?thesis by blast
qed

text \<open>
  C10. The success response of a route does not depend on the request: any two
  successful requests to the same route (Upload, Create, Edit or Delete), whatever their
  file names, contents, and the state of the storage, get the same response.
\<close>

theorem success_response_reveals_nothing:
  "(is_success (fst (upload_handler d fs files)) \<and> is_success (fst (upload_handler d' fs' files'))
      \<longrightarrow> fst (upload_handler d fs files) = fst (upload_handler d' fs' files'))
   \<and> (is_success (fst (create_handler d fs f c)) \<and> is_success (fst (create_handler d' fs' f' c'))
      \<longrightarrow> fst (create_handler d fs f c) = fst (create_handler d' fs' f' c'))
   \<and> (is_success (fst (edit_handler d fs f c)) \<and> is_success (fst (edit_handler d' fs' f' c'))
      \<longrightarrow> fst (edit_handler d fs f c) = fst (edit_handler d' fs' f' c'))
   \<and> (is_success (fst (delete_handler d fs f)) \<and> is_success (fst (delete_handler d' fs' f'))
      \<longrightarrow> fst (delete_handler d fs f) = fst (delete_handler d' fs' f'))"
  by (simp add: upload_handler_success_response create_handler_success_response
      edit_handler_success_response delete_handler_success_response)

theorem success_response_reveals_nothing_witness:
  "fst (upload_handler ''/app'' fs0 [(''a.txt'', ''A'')])
     = fst (upload_handler ''/app'' fs_notes [(''b.txt'', ''B''), (''c.txt'', ''C'')])
   \<and> fst (create_handler ''/app'' fs0 ''notes.txt'' ''hello'')
     = fst (create_handler ''/app'' fs_notes ''other.txt'' ''bye'')
   \<and> fst (edit_handler ''/app'' fs0 ''notes.txt'' ''hello'')
     = fst (edit_handler ''/app'' fs_notes ''todo.txt'' ''eggs'')
   \<and> fst (delete_handler ''/app'' fs_notes ''notes.txt'')
     = fst (delete_handler ''/app'' fs_notes ''todo.txt'')"
proof -
  have u1: "is_success (fst (upload_handler ''/app'' fs0 [(''a.txt'', ''A'')]))"
    and u2: "is_success (fst (upload_handler ''/app'' fs_notes [(''b.txt'', ''B''), (''c.txt'', ''C'')]))"
    and c1: "is_success (fst (create_handler ''/app'' fs0 ''notes.txt'' ''hello''))"
    and c2: "is_success (fst (create_handler ''/app'' fs_notes ''other.txt'' ''bye''))"
    and e1: "is_success (fst (edit_handler ''/app'' fs0 ''notes.txt'' ''hello''))"
    and e2: "is_success (fst (edit_handler ''/app'' fs_notes ''todo.txt'' ''eggs''))"
    and d1: "is_success (fst (delete_handler ''/app'' fs_notes ''notes.txt''))"
    and d2: "is_success (fst (delete_handler ''/app'' fs_notes ''todo.txt''))"
    by code_simp+
  from u1 u2 c1 c2 e1 e2 d1 d2
    success_response_reveals_nothing [of "''/app''" fs0 "[(''a.txt'', ''A'')]"
      "''/app''" fs_notes "[(''b.txt'', ''B''), (''c.txt'', ''C'')]"
      "''notes.txt''" "''hello''" "''other.txt''" "''bye''"]
    success_response_reveals_nothing [of "''/app''" fs0 "[]" "''/app''" fs_notes "[]"
      "''notes.txt''" "''hello''" "''todo.txt''" "''eggs''"]
    success_response_reveals_nothing [of "''/app''" fs_notes "[]" "''/app''" fs_notes "[]"
      "''notes.txt''" "''hello''" "''todo.txt''" "''eggs''"]
  show ?thesis by blast
qed

text \<open>
  C7, as the code has it. A successful upload of a non-empty batch answers with the fixed
  message \<open>Files uploaded successfully!\<close>; the message does not name the number of
  files written.
\<close>

theorem upload_success_message:
  assumes "files \<noteq> []" and "is_success (fst (upload_handler d fs files))"
  shows "fst (upload_handler d fs files) = Response 200 (Message ''Files uploaded successfully!'')"
  using assms(2) by (rule upload_handler_success_response)

theorem upload_success_message_witness:
  "[(''a.txt'', ''A''), (''b.txt'', ''B'')] \<noteq> []
   \<and> is_success (fst (upload_handler ''/app'' fs0 [(''a.txt'', ''A''), (''b.txt'', ''B'')]))
   \<and> fst (upload_handler ''/app'' fs0 [(''a.txt'', ''A''), (''b.txt'', ''B'')])
       = Response 200 (Message ''Files uploaded successfully!'')"
proof -
  have ne: "[(''a.txt'', ''A''), (''b.txt'', ''B'')] \<noteq> []"
    by simp
  have ok: "is_success (fst (upload_handler ''/app'' fs0 [(''a.txt'', ''A''), (''b.txt'', ''B'')]))"
    by code_simp
  from ne ok upload_success_message [OF ne ok] show ?thesis by blast
qed

text \<open>
  C7 as stated fails: an upload that writes one file and an upload that writes two get
  the same message, so the message does not name the count.
\<close>

theorem upload_message_without_count_counterexample:
  "fst (upload_handler ''/app'' fs0 [(''a.txt'', ''A'')])
     = Response 200 (Message ''Files uploaded successfully!'')
   \<and> fst (upload_handler ''/app'' fs0 [(''a.txt'', ''A''), (''b.txt'', ''B'')])
     = Response 200 (Message ''Files uploaded successfully!'')"
  by code_simp

text \<open>
  C8. After a successful upload of the two files \<open>a.txt\<close> and \<open>b.txt\<close>, both are in
  the storage root, each with exactly the content supplied for it.
\<close>

theorem upload_two_files:
  assumes "is_success (fst (upload_handler d fs [(''a.txt'', a), (''b.txt'', b)]))"
  shows "readFile (snd (upload_handler d fs [(''a.txt'', a), (''b.txt'', b)]))
           (path_join (BASE_DIR d) ''a.txt'') = Inr a
       \<and> readFile (snd (upload_handler d fs [(''a.txt'', a), (''b.txt'', b)]))
           (path_join (BASE_DIR d) ''b.txt'') = Inr b"
proof -
  let ?pa = "path_join (BASE_DIR d) ''a.txt''"
  let ?pb = "path_join (BASE_DIR d) ''b.txt''"
  have base: "basename ''a.txt'' = ''a.txt''" "basename ''b.txt'' = ''b.txt''"
    by (simp_all add: basename_def)
  obtain fs1 where w1: "writeFile fs ?pa a = Inr fs1"
    using assms
    by (cases "writeFile fs ?pa a") (auto simp: upload_handler_def is_success_def base)
  obtain fs2 where w2: "writeFile fs1 ?pb b = Inr fs2"
    using assms w1
    by (cases "writeFile fs1 ?pb b") (auto simp: upload_handler_def is_success_def base)
  have res: "snd (upload_handler d fs [(''a.txt'', a), (''b.txt'', b)]) = fs2"
    using w1 w2 by (simp add: upload_handler_def base)
  have ca: "components ?pa = parent_of (BASE_DIR d) @ [''a.txt'']"
    by (rule components_join_name) (simp_all add: BASE_DIR_not_Nil)
  have cb: "components ?pb = parent_of (BASE_DIR d) @ [''b.txt'']"
    by (rule components_join_name) (simp_all add: BASE_DIR_not_Nil)
  have "readFile fs1 ?pa = Inr a"
    using w1 by (rule readFile_after_writeFile)
  then have "readFile fs2 ?pa = Inr a"
    by (rule readFile_after_sibling_write [OF w2]) (simp_all add: ca cb)
  moreover have "readFile fs2 ?pb = Inr b"
    using w2 by (rule readFile_after_writeFile)
  ultimately show ?thesis
    by (simp add: res)
qed

theorem upload_two_files_witness:
  "is_success (fst (upload_handler ''/app'' fs0 [(''a.txt'', ''alpha''), (''b.txt'', ''beta'')]))
   \<and> readFile (snd (upload_handler ''/app'' fs0 [(''a.txt'', ''alpha''), (''b.txt'', ''beta'')]))
           (path_join (BASE_DIR ''/app'') ''a.txt'') = Inr ''alpha''
   \<and> readFile (snd (upload_handler ''/app'' fs0 [(''a.txt'', ''alpha''), (''b.txt'', ''beta'')]))
           (path_join (BASE_DIR ''/app'') ''b.txt'') = Inr ''beta''"
proof -
  have ok: "is_success (fst (upload_handler ''/app'' fs0 [(''a.txt'', ''alpha''), (''b.txt'', ''beta'')]))"
    by code_simp
  from ok upload_two_files [OF ok] show ?thesis by (rule conjI)
qed

text \<open>
  C1, as the code has it. No route validates the file name. Create, Edit and Delete
  act on \<open>path.join(BASE_DIR, filename)\<close> and change the file system at no other path;
  when the file name has no \<open>..\<close> segment, a leading slash included, that path lies
  inside the storage root. Upload changes the file system only at the base names of its
  parts, directly in the storage root.
\<close>

theorem names_without_dotdot_stay_in_root:
  assumes "isAbsolute d"
  shows "(''..'' \<notin> set (split_on CHR ''/'' f) \<longrightarrow>
            prefix (components (BASE_DIR d)) (components (path_join (BASE_DIR d) f)))
       \<and> (segs \<noteq> components (path_join (BASE_DIR d) f) \<longrightarrow>
            snd (create_handler d fs f c) segs = fs segs
          \<and> snd (edit_handler d fs f c) segs = fs segs
          \<and> snd (delete_handler d fs f) segs = fs segs)
       \<and> (segs \<notin> (\<lambda>(name, bytes). components (BASE_DIR d) @ [basename name]) ` set files \<longrightarrow>
            snd (upload_handler d fs files) segs = fs segs)"
proof -
  have "components (path_join (BASE_DIR d) f)
          = components (BASE_DIR d) @ filter (\<lambda>s. s \<noteq> [] \<and> s \<noteq> ''.'') (split_on CHR ''/'' f)"
    if "''..'' \<notin> set (split_on CHR ''/'' f)"
    using that BASE_DIR_absolute(2) [OF assms]
    by (simp add: components_path_join_absolute [OF BASE_DIR_absolute(1) [OF assms]]
        normalizeString_no_dotdot)
  then show ?thesis
    by (simp add: create_handler_elsewhere edit_handler_elsewhere delete_handler_elsewhere
        upload_handler_elsewhere BASE_DIR_absolute(2) [OF assms])
qed

theorem names_without_dotdot_stay_in_root_witness:
  "isAbsolute ''/app'' \<and> ''..'' \<notin> set (split_on CHR ''/'' ''/notes.txt'')
   \<and> [''app'', ''user_files'', ''todo.txt'']
        \<noteq> components (path_join (BASE_DIR ''/app'') ''/notes.txt'')
   \<and> [''etc'', ''passwd''] \<notin> (\<lambda>(name, bytes). components (BASE_DIR ''/app'') @ [basename name])
         ` set [(''../../etc/passwd'', ''x''), (''a.txt'', ''A'')]
   \<and> prefix (components (BASE_DIR ''/app'')) (components (path_join (BASE_DIR ''/app'') ''/notes.txt''))
   \<and> is_success (fst (create_handler ''/app'' fs_notes ''/notes.txt'' ''x''))
   \<and> snd (create_handler ''/app'' fs_notes ''/notes.txt'' ''x'') [''app'', ''user_files'', ''todo.txt'']
        = fs_notes [''app'', ''user_files'', ''todo.txt'']
   \<and> is_success (fst (edit_handler ''/app'' fs_notes ''/notes.txt'' ''x''))
   \<and> snd (edit_handler ''/app'' fs_notes ''/notes.txt'' ''x'') [''app'', ''user_files'', ''todo.txt'']
        = fs_notes [''app'', ''user_files'', ''todo.txt'']
   \<and> is_success (fst (delete_handler ''/app'' fs_notes ''/notes.txt''))
   \<and> snd (delete_handler ''/app'' fs_notes ''/notes.txt'') [''app'', ''user_files'', ''todo.txt'']
        = fs_notes [''app'', ''user_files'', ''todo.txt'']
   \<and> is_success (fst (upload_handler ''/app'' fs_passwd
        [(''../../etc/passwd'', ''x''), (''a.txt'', ''A'')]))
   \<and> snd (upload_handler ''/app'' fs_passwd [(''../../etc/passwd'', ''x''), (''a.txt'', ''A'')])
        [''etc'', ''passwd''] = fs_passwd [''etc'', ''passwd'']"
proof -
  have h1: "isAbsolute ''/app''"
    and h2: "''..'' \<notin> set (split_on CHR ''/'' ''/notes.txt'')"
    and h3: "[''app'', ''user_files'', ''todo.txt'']
        \<noteq> components (path_join (BASE_DIR ''/app'') ''/notes.txt'')"
    and h4: "[''etc'', ''passwd''] \<notin> (\<lambda>(name, bytes). components (BASE_DIR ''/app'') @ [basename name])
         ` set [(''../../etc/passwd'', ''x''), (''a.txt'', ''A'')]"
    and s1: "is_success (fst (create_handler ''/app'' fs_notes ''/notes.txt'' ''x''))"
    and s2: "is_success (fst (edit_handler ''/app'' fs_notes ''/notes.txt'' ''x''))"
    and s3: "is_success (fst (delete_handler ''/app'' fs_notes ''/notes.txt''))"
    and s4: "is_success (fst (upload_handler ''/app'' fs_passwd
        [(''../../etc/passwd'', ''x''), (''a.txt'', ''A'')]))"
    by code_simp+
  from h1 h2 h3 h4 s1 s2 s3 s4
    names_without_dotdot_stay_in_root [OF h1, of "''/notes.txt''"
      "[''app'', ''user_files'', ''todo.txt'']" fs_notes "''x''" "[]"]
    names_without_dotdot_stay_in_root [OF h1, of "''/notes.txt''" "[''etc'', ''passwd'']"
      fs_passwd "''x''" "[(''../../etc/passwd'', ''x''), (''a.txt'', ''A'')]"]
  show ?thesis by blast
qed

text \<open>
  C1 as stated fails. Create with the file name \<open>../../etc/passwd\<close> is not rejected:
  it succeeds, resolves to \<open>/etc/passwd\<close> outside the storage root, and overwrites the
  file there; Edit does the same, and Delete removes the file. Create with the absolute
  name \<open>/notes.txt\<close> is not rejected either.
\<close>

theorem create_outside_root_counterexample:
  "fst (create_handler ''/app'' fs_passwd ''../../etc/passwd'' ''x'')
     = Response 200 (Message ''File created successfully!'')
   \<and> path_join (BASE_DIR ''/app'') ''../../etc/passwd'' = ''/etc/passwd''
   \<and> \<not> prefix (components (BASE_DIR ''/app''))
          (components (path_join (BASE_DIR ''/app'') ''../../etc/passwd''))
   \<and> fs_passwd [''etc'', ''passwd''] = Some (File ''root'')
   \<and> snd (create_handler ''/app'' fs_passwd ''../../etc/passwd'' ''x'') [''etc'', ''passwd'']
       = Some (File ''x'')
   \<and> fst (create_handler ''/app'' fs_passwd ''/notes.txt'' ''x'')
     = Response 200 (Message ''File created successfully!'')
   \<and> fst (edit_handler ''/app'' fs_passwd ''../../etc/passwd'' ''x'')
     = Response 200 (Message ''File edited successfully!'')
   \<and> snd (edit_handler ''/app'' fs_passwd ''../../etc/passwd'' ''x'') [''etc'', ''passwd'']
       = Some (File ''x'')
   \<and> fst (delete_handler ''/app'' fs_passwd ''../../etc/passwd'')
     = Response 200 (Message ''File deleted successfully!'')
   \<and> snd (delete_handler ''/app'' fs_passwd ''../../etc/passwd'') [''etc'', ''passwd''] = None"
  by code_simp




text \<open>
  C3, as the code has it. When the resolved path is missing (reading it fails with
  \<open>ENOENT\<close>), Delete answers with status 500 and the \<open>ENOENT\<close> message of \<open>unlink\<close>,
  and the file system is unchanged.
\<close>

theorem delete_missing_file:
  assumes "readFile fs (path_join (BASE_DIR d) f) = Inl (SystemError ENOENT)"
  shows "delete_handler d fs f
           = (Response 500 (Error (err_message ENOENT ''unlink'' (path_join (BASE_DIR d) f))), fs)"
  using readFile_ENOENT_unlink [OF assms] by (simp add: delete_handler_def)

theorem delete_missing_file_witness:
  "readFile fs_notes (path_join (BASE_DIR ''/app'') ''ghost.txt'') = Inl (SystemError ENOENT)
   \<and> delete_handler ''/app'' fs_notes ''ghost.txt''
       = (Response 500 (Error (err_message ENOENT ''unlink''
            (path_join (BASE_DIR ''/app'') ''ghost.txt''))), fs_notes)"
proof -
  have h: "readFile fs_notes (path_join (BASE_DIR ''/app'') ''ghost.txt'') = Inl (SystemError ENOENT)"
    by code_simp
  from h delete_missing_file [OF h] show ?thesis by (rule conjI)
qed

text \<open>
  C3 as stated fails: \<open>notes.txt\<close> is a plain file, so there is no file
  \<open>notes.txt/x\<close>, and Delete of that name does not answer with the not-found error but
  with \<open>ENOTDIR\<close>.
\<close>

theorem delete_under_plain_file_counterexample:
  "fs_notes (components (path_join (BASE_DIR ''/app'') ''notes.txt/x'')) = None
   \<and> fst (delete_handler ''/app'' fs_notes ''notes.txt/x'')
       = Response 500 (Error (err_message ENOTDIR ''unlink'' ''/app/user_files/notes.txt/x''))
   \<and> fst (delete_handler ''/app'' fs_notes ''notes.txt/x'')
       \<noteq> Response 500 (Error (err_message ENOENT ''unlink'' ''/app/user_files/notes.txt/x''))"
  by code_simp

end
